theory Spec2Isabelle
  imports Main
begin

section \<open>Row selection of the web UI: the \<open>useSelection\<close> hook\<close>

text \<open>
  The development embeds \<^verbatim>\<open>src/webui/react/src/hooks/useSelection.ts\<close> and the
  copy of its selection handler in \<^verbatim>\<open>src/webui/react/src/pages/FlatRuns/FlatRuns.tsx\<close>.
  Ids, positions and the total count are JavaScript numbers; they are integers here.
\<close>

subsection \<open>Data model\<close>

text \<open>
  Modelled from the spec: the \<^verbatim>\<open>Loadable\<close> type of the \<^verbatim>\<open>hew\<close> library
  (\<^verbatim>\<open>hew/utils/loadable\<close>). A slot is either pending or a resolved value.
\<close>

datatype 'a Loadable = Loaded 'a | NotLoaded

text \<open>\<^verbatim>\<open>interface HasId { id: number }\<close>; a record type \<^verbatim>\<open>T extends HasId\<close> is an
  extension of this record.\<close>

record HasId =
  record_id :: int

text \<open>\<^verbatim>\<open>SelectionState\<close>: the tagged union of \<^verbatim>\<open>{type: 'ONLY_IN', selections}\<close> and
  \<^verbatim>\<open>{type: 'ALL_EXCEPT', exclusions}\<close>.\<close>

datatype SelectionState =
    ONLY_IN (selections: "int list")
  | ALL_EXCEPT (exclusions: "int list")

definition DEFAULT_SELECTION :: SelectionState where
  "DEFAULT_SELECTION = ONLY_IN []"

text \<open>The values of \<^verbatim>\<open>loadedRecordIdMap\<close>: \<^verbatim>\<open>{ record: T; index: number }\<close>.\<close>

record 'r MapEntry =
  entry_record :: 'r
  index :: nat

subsection \<open>Library operations the hook calls\<close>

text \<open>
  Modelled from the spec: \<^verbatim>\<open>Loadable.filterNotLoaded(a, cond?)\<close> of the \<^verbatim>\<open>hew\<close>
  library keeps the values of the loaded slots, in order, that satisfy the optional condition;
  pending slots are skipped.
\<close>

fun filterNotLoaded :: "'a Loadable list \<Rightarrow> ('a \<Rightarrow> bool) option \<Rightarrow> 'a list" where
  "filterNotLoaded [] cond = []"
| "filterNotLoaded (NotLoaded # a) cond = filterNotLoaded a cond"
| "filterNotLoaded (Loaded d # a) cond =
     (if (case cond of None \<Rightarrow> True | Some c \<Rightarrow> c d)
      then d # filterNotLoaded a cond else filterNotLoaded a cond)"

text \<open>Modelled from the spec: \<^verbatim>\<open>loadable.getOrElse(d)\<close> of the \<^verbatim>\<open>hew\<close> library, the loaded
  value or the default when the value is pending.\<close>

fun getOrElse :: "'a Loadable \<Rightarrow> 'a \<Rightarrow> 'a" where
  "getOrElse (Loaded x) d = x"
| "getOrElse NotLoaded d = d"

text \<open>
  \<^verbatim>\<open>Array.prototype.slice(start, end)\<close> on integer arguments: a negative argument counts
  from the end of the array, both are clamped to the array, and an empty array results when
  the end is not after the start.
\<close>

definition Array_slice :: "'a list \<Rightarrow> int \<Rightarrow> int \<Rightarrow> 'a list" where
  "Array_slice xs start fin =
     (let len = int (length xs);
          k = (if start < 0 then max (len + start) 0 else min start len);
          final = (if fin < 0 then max (len + fin) 0 else min fin len)
      in take (nat (final - k)) (drop (nat k) xs))"

text \<open>
  A JavaScript \<^verbatim>\<open>Set\<close> of numbers: its elements without repetition, in insertion order.
  \<^verbatim>\<open>new Set(xs)\<close> inserts the elements of \<^verbatim>\<open>xs\<close> one after the other, so the first
  occurrence of each survives; \<^verbatim>\<open>Array.from\<close> reads the elements in insertion order.
\<close>

type_synonym JsSet = "int list"

definition Set_add :: "JsSet \<Rightarrow> int \<Rightarrow> JsSet" where
  "Set_add s x = (if x \<in> set s then s else s @ [x])"

definition Set_delete :: "JsSet \<Rightarrow> int \<Rightarrow> JsSet" where
  "Set_delete s x = removeAll x s"

definition Set_has :: "JsSet \<Rightarrow> int \<Rightarrow> bool" where
  "Set_has s x = (x \<in> set s)"

definition new_Set :: "int list \<Rightarrow> JsSet" where
  "new_Set xs = fold (\<lambda>x s. Set_add s x) xs []"

definition Array_from :: "JsSet \<Rightarrow> int list" where
  "Array_from s = s"

text \<open>
  Modelled from the spec: \<^verbatim>\<open>CompactSelection\<close> of the grid library
  \<^verbatim>\<open>@glideapps/glide-data-grid\<close>, the interval-based set of positions of section 4.2:
  a list of half-open slices \<open>[start, end)\<close>, with \<^verbatim>\<open>add\<close> and \<^verbatim>\<open>remove\<close> taking a
  position or a half-open slice. A position \<open>n\<close> stands for the slice \<open>[n, n + 1)\<close>.
\<close>

datatype CompactSelection = CompactSelection (items: "(int \<times> int) list")

datatype NumberOrSlice = Number int | Slice int int

fun toSlice :: "NumberOrSlice \<Rightarrow> int \<times> int" where
  "toSlice (Number n) = (n, n + 1)"
| "toSlice (Slice start fin) = (start, fin)"

definition CompactSelection_empty :: CompactSelection where
  "CompactSelection_empty = CompactSelection []"

definition CompactSelection_add :: "CompactSelection \<Rightarrow> NumberOrSlice \<Rightarrow> CompactSelection" where
  "CompactSelection_add cs selection = CompactSelection (items cs @ [toSlice selection])"

fun removeFromSlice :: "int \<times> int \<Rightarrow> int \<times> int \<Rightarrow> (int \<times> int) list" where
  "removeFromSlice (selMin, selMax) (start, fin) =
     (if start \<le> selMax \<and> selMin \<le> fin
      then (if start < selMin then [(start, selMin)] else []) @
           (if selMax < fin then [(selMax, fin)] else [])
      else [(start, fin)])"

definition CompactSelection_remove :: "CompactSelection \<Rightarrow> NumberOrSlice \<Rightarrow> CompactSelection" where
  "CompactSelection_remove cs selection =
     CompactSelection (concat (map (removeFromSlice (toSlice selection)) (items cs)))"

definition hasIndex :: "CompactSelection \<Rightarrow> int \<Rightarrow> bool" where
  "hasIndex cs i = list_ex (\<lambda>(start, fin). start \<le> i \<and> i < fin) (items cs)"

definition hasAll :: "CompactSelection \<Rightarrow> int \<times> int \<Rightarrow> bool" where
  "hasAll cs r = list_all (hasIndex cs) [fst r .. snd r - 1]"

record GridSelection =
  columns :: CompactSelection
  rows :: CompactSelection

subsection \<open>The hook's derived values\<close>

text \<open>\<^verbatim>\<open>loadedRecordIdMap\<close> (lines 40-49): every loaded record is stored under its id with
  its position; a later record with the same id replaces an earlier one.\<close>

fun recordMap_forEach ::
  "'a HasId_scheme Loadable list \<Rightarrow> nat \<Rightarrow> (int \<rightharpoonup> 'a HasId_scheme MapEntry)
     \<Rightarrow> (int \<rightharpoonup> 'a HasId_scheme MapEntry)" where
  "recordMap_forEach [] i recordMap = recordMap"
| "recordMap_forEach (r # rs) i recordMap =
     recordMap_forEach rs (Suc i)
       (case r of
          Loaded rc \<Rightarrow> recordMap(record_id rc \<mapsto> \<lparr>entry_record = rc, index = i\<rparr>)
        | NotLoaded \<Rightarrow> recordMap)"

definition loadedRecordIdMap ::
  "'a HasId_scheme Loadable list \<Rightarrow> (int \<rightharpoonup> 'a HasId_scheme MapEntry)" where
  "loadedRecordIdMap records = recordMap_forEach records 0 Map.empty"

text \<open>\<^verbatim>\<open>selectedRecordIdSet\<close> (lines 51-64).\<close>

definition selectedRecordIdSet :: "'a HasId_scheme Loadable list \<Rightarrow> SelectionState \<Rightarrow> JsSet" where
  "selectedRecordIdSet records selection =
     (case selection of
        ONLY_IN sels \<Rightarrow> new_Set sels
      | ALL_EXCEPT excs \<Rightarrow>
          (let excludedSet = new_Set excs
           in new_Set (map record_id
                (filterNotLoaded records (Some (\<lambda>rc. \<not> Set_has excludedSet (record_id rc)))))))"

text \<open>\<^verbatim>\<open>dataGridSelection\<close> (lines 66-91).\<close>

definition dataGridSelection ::
  "'a HasId_scheme Loadable list \<Rightarrow> SelectionState \<Rightarrow> int Loadable \<Rightarrow> GridSelection" where
  "dataGridSelection records selection totl =
     (let rows =
        (case selection of
           ONLY_IN sels \<Rightarrow>
             fold (\<lambda>ident rows.
                     case loadedRecordIdMap records ident of
                       Some e \<Rightarrow> CompactSelection_add rows (Number (int (index e)))
                     | None \<Rightarrow> rows)
                  sels CompactSelection_empty
         | ALL_EXCEPT excs \<Rightarrow>
             fold (\<lambda>exc rows.
                     case loadedRecordIdMap records exc of
                       Some e \<Rightarrow> CompactSelection_remove rows (Number (int (index e)))
                     | None \<Rightarrow> rows)
                  excs
                  (CompactSelection_add CompactSelection_empty (Slice 0 (getOrElse totl 1 - 1))))
      in \<lparr>columns = CompactSelection_empty, rows = rows\<rparr>)"

text \<open>\<^verbatim>\<open>loadedSelectedRecords\<close> (lines 93-95).\<close>

definition loadedSelectedRecords ::
  "'a HasId_scheme Loadable list \<Rightarrow> SelectionState \<Rightarrow> 'a HasId_scheme list" where
  "loadedSelectedRecords records selection =
     filterNotLoaded records
       (Some (\<lambda>rc. Set_has (selectedRecordIdSet records selection) (record_id rc)))"

text \<open>\<^verbatim>\<open>selectionSize\<close> (lines 101-108).\<close>

definition selectionSize :: "SelectionState \<Rightarrow> int Loadable \<Rightarrow> int" where
  "selectionSize selection totl =
     (case selection of
        ONLY_IN sels \<Rightarrow> int (length sels)
      | ALL_EXCEPT excs \<Rightarrow> getOrElse totl 0 - int (length excs))"

text \<open>\<^verbatim>\<open>rowRangeToIds\<close> (lines 110-116).\<close>

definition rowRangeToIds :: "'a HasId_scheme Loadable list \<Rightarrow> int \<times> int \<Rightarrow> int list" where
  "rowRangeToIds records rng =
     (let slice = Array_slice records (fst rng) (snd rng)
      in map record_id (filterNotLoaded slice None))"

text \<open>\<^verbatim>\<open>isRangeSelected\<close> (lines 174-188).\<close>

definition isRangeSelected ::
  "'a HasId_scheme Loadable list \<Rightarrow> SelectionState \<Rightarrow> int \<times> int \<Rightarrow> bool" where
  "isRangeSelected records selection rng =
     (case selection of
        ONLY_IN sels \<Rightarrow>
          (let includedSet = new_Set sels
           in list_all (\<lambda>ident. Set_has includedSet ident) (rowRangeToIds records rng))
      | ALL_EXCEPT excs \<Rightarrow>
          (let excludedSet = new_Set excs
           in list_all (\<lambda>ident. \<not> Set_has excludedSet ident) (rowRangeToIds records rng)))"

subsection \<open>The selection handler\<close>

text \<open>The gestures of the grid: \<^verbatim>\<open>'add' | 'add-all' | 'remove' | 'remove-all' | 'set'\<close>.\<close>

datatype SelectionType = Add | AddAll | Remove | RemoveAll | SetRange

text \<open>
  The argument of \<^verbatim>\<open>updateSettings\<close> is a \<^verbatim>\<open>Record<string, unknown>\<close>: a finite map from
  keys to values, of which only a selection is ever built here.
\<close>

datatype 'u SettingValue = SelectionValue SelectionState | OtherValue 'u

type_synonym 'u PartialSettings = "string \<rightharpoonup> 'u SettingValue"

text \<open>
  \<^verbatim>\<open>handleSelectionChange\<close> (lines 118-172). The result is the argument of the one call of
  \<^verbatim>\<open>config.updateSettings\<close>, or \<open>None\<close> when the handler returns before it (a gesture that
  needs a range, without one).
\<close>

definition handleSelectionChange ::
  "'a HasId_scheme Loadable list \<Rightarrow> SelectionState \<Rightarrow> SelectionType \<Rightarrow> (int \<times> int) option
     \<Rightarrow> 'u PartialSettings option" where
  "handleSelectionChange records selection selectionType rng =
     (let commit = (\<lambda>newSettings. Some [''selection'' \<mapsto> SelectionValue newSettings])
      in case selectionType of
        Add \<Rightarrow>
          (case rng of
             None \<Rightarrow> None
           | Some r \<Rightarrow>
               (case selection of
                  ALL_EXCEPT excs \<Rightarrow>
                    (let excludedSet = fold (\<lambda>ident s. Set_delete s ident)
                                         (rowRangeToIds records r) (new_Set excs)
                     in commit (ALL_EXCEPT (Array_from excludedSet)))
                | ONLY_IN sels \<Rightarrow>
                    (let includedSet = fold (\<lambda>ident s. Set_add s ident)
                                         (rowRangeToIds records r) (new_Set sels)
                     in commit (ONLY_IN (Array_from includedSet)))))
      | AddAll \<Rightarrow> commit (ALL_EXCEPT [])
      | Remove \<Rightarrow>
          (case rng of
             None \<Rightarrow> None
           | Some r \<Rightarrow>
               (case selection of
                  ALL_EXCEPT excs \<Rightarrow>
                    (let excludedSet = fold (\<lambda>ident s. Set_add s ident)
                                         (rowRangeToIds records r) (new_Set excs)
                     in commit (ALL_EXCEPT (Array_from excludedSet)))
                | ONLY_IN sels \<Rightarrow>
                    (let includedSet = fold (\<lambda>ident s. Set_delete s ident)
                                         (rowRangeToIds records r) (new_Set sels)
                     in commit (ONLY_IN (Array_from includedSet)))))
      | RemoveAll \<Rightarrow> commit DEFAULT_SELECTION
      | SetRange \<Rightarrow>
          (case rng of
             None \<Rightarrow> None
           | Some r \<Rightarrow> commit (ONLY_IN (rowRangeToIds records r))))"

text \<open>
  The handler of \<^verbatim>\<open>FlatRuns.tsx\<close> (lines 638-693), over the page's \<^verbatim>\<open>runs\<close> and
  \<^verbatim>\<open>settings.selection\<close>, with the page's own \<^verbatim>\<open>rowRangeToIds\<close> (lines 630-636).
\<close>

definition FlatRuns_rowRangeToIds :: "'a HasId_scheme Loadable list \<Rightarrow> int \<times> int \<Rightarrow> int list" where
  "FlatRuns_rowRangeToIds runs rng =
     (let slice = Array_slice runs (fst rng) (snd rng)
      in map record_id (filterNotLoaded slice None))"

definition FlatRuns_handleSelectionChange ::
  "'a HasId_scheme Loadable list \<Rightarrow> SelectionState \<Rightarrow> SelectionType \<Rightarrow> (int \<times> int) option
     \<Rightarrow> 'u PartialSettings option" where
  "FlatRuns_handleSelectionChange runs selection selectionType rng =
     (let commit = (\<lambda>newSettings. Some [''selection'' \<mapsto> SelectionValue newSettings])
      in case selectionType of
        Add \<Rightarrow>
          (case rng of
             None \<Rightarrow> None
           | Some r \<Rightarrow>
               (case selection of
                  ALL_EXCEPT excs \<Rightarrow>
                    (let excludedSet = fold (\<lambda>ident s. Set_delete s ident)
                                         (FlatRuns_rowRangeToIds runs r) (new_Set excs)
                     in commit (ALL_EXCEPT (Array_from excludedSet)))
                | ONLY_IN sels \<Rightarrow>
                    (let includedSet = fold (\<lambda>ident s. Set_add s ident)
                                         (FlatRuns_rowRangeToIds runs r) (new_Set sels)
                     in commit (ONLY_IN (Array_from includedSet)))))
      | AddAll \<Rightarrow> commit (ALL_EXCEPT [])
      | Remove \<Rightarrow>
          (case rng of
             None \<Rightarrow> None
           | Some r \<Rightarrow>
               (case selection of
                  ALL_EXCEPT excs \<Rightarrow>
                    (let excludedSet = fold (\<lambda>ident s. Set_add s ident)
                                         (FlatRuns_rowRangeToIds runs r) (new_Set excs)
                     in commit (ALL_EXCEPT (Array_from excludedSet)))
                | ONLY_IN sels \<Rightarrow>
                    (let includedSet = fold (\<lambda>ident s. Set_delete s ident)
                                         (FlatRuns_rowRangeToIds runs r) (new_Set sels)
                     in commit (ONLY_IN (Array_from includedSet)))))
      | RemoveAll \<Rightarrow> commit DEFAULT_SELECTION
      | SetRange \<Rightarrow>
          (case rng of
             None \<Rightarrow> None
           | Some r \<Rightarrow> commit (ONLY_IN (FlatRuns_rowRangeToIds runs r))))"

text \<open>
  The selection after a gesture: the one the handler passed to \<^verbatim>\<open>updateSettings\<close> under the
  key \<^verbatim>\<open>selection\<close>, or the selection as it was when the handler made no call.
\<close>

definition selectionAfter :: "SelectionState \<Rightarrow> unit PartialSettings option \<Rightarrow> SelectionState" where
  "selectionAfter selection call =
     (case call of
        None \<Rightarrow> selection
      | Some p \<Rightarrow>
          (case p ''selection'' of
             Some (SelectionValue s) \<Rightarrow> s
           | _ \<Rightarrow> selection))"

definition applyGesture ::
  "'a HasId_scheme Loadable list \<Rightarrow> SelectionState \<Rightarrow> SelectionType \<Rightarrow> (int \<times> int) option
     \<Rightarrow> SelectionState" where
  "applyGesture records selection selectionType rng =
     selectionAfter selection (handleSelectionChange records selection selectionType rng)"

definition FlatRuns_applyGesture ::
  "'a HasId_scheme Loadable list \<Rightarrow> SelectionState \<Rightarrow> SelectionType \<Rightarrow> (int \<times> int) option
     \<Rightarrow> SelectionState" where
  "FlatRuns_applyGesture runs selection selectionType rng =
     selectionAfter selection (FlatRuns_handleSelectionChange runs selection selectionType rng)"

text \<open>
  The ids a selection state tracks, as the spec names them: the selected ids of an inclusion,
  the excluded ids of an exclusion.
\<close>

fun trackedIds :: "SelectionState \<Rightarrow> int list" where
  "trackedIds (ONLY_IN sels) = sels"
| "trackedIds (ALL_EXCEPT excs) = excs"

text \<open>
  Membership in the effective selection, as the spec words it: an id is selected by an
  inclusion when it is one of its ids, by an exclusion when it is none of its ids.
\<close>

fun effectiveMember :: "SelectionState \<Rightarrow> int \<Rightarrow> bool" where
  "effectiveMember (ONLY_IN ids) x = (x \<in> set ids)"
| "effectiveMember (ALL_EXCEPT ids) x = (x \<notin> set ids)"

text \<open>
  A gesture keeps the selection when the variant and the set of tracked ids are the same
  afterwards, and the state itself is the same when its array held no id twice.
\<close>

definition keepsSelection :: "SelectionState \<Rightarrow> SelectionState \<Rightarrow> bool" where
  "keepsSelection S S' =
     (is_ONLY_IN S' = is_ONLY_IN S \<and> set (trackedIds S') = set (trackedIds S)
      \<and> (distinct (trackedIds S) \<longrightarrow> S' = S))"

text \<open>
  The persisted settings after a gesture, for a settings collaborator \<open>updateSettings\<close>
  (\<^verbatim>\<open>config.updateSettings\<close> of the hook, \<^verbatim>\<open>userSettings.setPartial\<close> behind the page's
  \<^verbatim>\<open>updateSettings\<close>): the collaborator is called once with the handler's object, or not
  at all.
\<close>

definition settingsAfter ::
  "((string \<rightharpoonup> 'v) \<Rightarrow> 'u PartialSettings \<Rightarrow> (string \<rightharpoonup> 'v)) \<Rightarrow> (string \<rightharpoonup> 'v)
     \<Rightarrow> 'u PartialSettings option \<Rightarrow> (string \<rightharpoonup> 'v)" where
  "settingsAfter updateSettings settings call =
     (case call of None \<Rightarrow> settings | Some p \<Rightarrow> updateSettings settings p)"

text \<open>
  A position range \<open>[lo, hi)\<close> lies in the loaded portion of the window when it is a range of
  window positions and every slot in it is resolved.
\<close>

definition rangeLoaded :: "'a Loadable list \<Rightarrow> int \<times> int \<Rightarrow> bool" where
  "rangeLoaded records r =
     (0 \<le> fst r \<and> fst r \<le> snd r \<and> snd r \<le> int (length records)
      \<and> list_all (\<lambda>slot. slot \<noteq> NotLoaded) (Array_slice records (fst r) (snd r)))"

text \<open>The data model's invariant on records: no id occurs twice among the loaded records.\<close>

definition uniqueIds :: "'a HasId_scheme Loadable list \<Rightarrow> bool" where
  "uniqueIds records = distinct (map record_id (filterNotLoaded records None))"

text \<open>
  The ranges the projection of a state can cover: any range for an inclusion; for an
  exclusion with a known total \<open>N\<close>, a range that ends at or before position \<open>N - 1\<close>.
\<close>

fun coveredByTotal :: "SelectionState \<Rightarrow> int Loadable \<Rightarrow> int \<times> int \<Rightarrow> bool" where
  "coveredByTotal (ONLY_IN sels) totl r = True"
| "coveredByTotal (ALL_EXCEPT excs) (Loaded N) r = (snd r \<le> N - 1)"
| "coveredByTotal (ALL_EXCEPT excs) NotLoaded r = False"

text \<open>The window of the spec's scenarios: five loaded records with ids 10 to 14.\<close>

definition scenarioWindow :: "HasId Loadable list" where
  "scenarioWindow =
     [Loaded \<lparr>record_id = 10\<rparr>, Loaded \<lparr>record_id = 11\<rparr>, Loaded \<lparr>record_id = 12\<rparr>,
      Loaded \<lparr>record_id = 13\<rparr>, Loaded \<lparr>record_id = 14\<rparr>]"

section \<open>Properties\<close>

lemma FlatRuns_rowRangeToIds_eq: "FlatRuns_rowRangeToIds = rowRangeToIds"
  by (simp add: fun_eq_iff FlatRuns_rowRangeToIds_def rowRangeToIds_def)

lemma FlatRuns_handleSelectionChange_eq:
  "FlatRuns_handleSelectionChange = handleSelectionChange"
  unfolding fun_eq_iff FlatRuns_handleSelectionChange_def handleSelectionChange_def
    FlatRuns_rowRangeToIds_eq
  by (intro allI refl)

lemma FlatRuns_applyGesture_eq: "FlatRuns_applyGesture = applyGesture"
  by (simp add: fun_eq_iff FlatRuns_applyGesture_def applyGesture_def
      FlatRuns_handleSelectionChange_eq)

subsection \<open>The reported size\<close>

text \<open>
  C3 (amended). The size of an inclusion is the length of its stored array of ids. With a
  known total \<open>N\<close>, the size of an exclusion is \<open>N\<close> minus the length of its stored array;
  nothing clamps it, so it is negative exactly when the array is longer than \<open>N\<close>.
\<close>

theorem selectionSize_unclamped:
  "selectionSize (ONLY_IN ids) totl = int (length ids)
   \<and> selectionSize (ALL_EXCEPT ids) (Loaded N) = N - int (length ids)
   \<and> (selectionSize (ALL_EXCEPT ids) (Loaded N) < 0) = (N < int (length ids))"
  by (simp add: selectionSize_def)

text \<open>With two excluded ids against a total of one the size is \<open>-1\<close>, not \<open>max 0 (1 - 2)\<close>.\<close>

theorem selectionSize_clamp_counterexample:
  "selectionSize (ALL_EXCEPT [7, 8]) (Loaded 1) = - 1
   \<and> selectionSize (ALL_EXCEPT [7, 8]) (Loaded 1) \<noteq> max 0 (1 - int (length [7, 8 :: int]))"
  by (simp add: selectionSize_def)

text \<open>
  C5 (amended). For a known total \<open>N\<close> and a state that tracks at most \<open>N\<close> ids, the size lies
  between \<open>0\<close> and \<open>N\<close>.
\<close>

theorem selectionSize_bounds:
  assumes "int (length (trackedIds S)) \<le> N"
  shows "0 \<le> selectionSize S (Loaded N) \<and> selectionSize S (Loaded N) \<le> N"
  using assms by (cases S) (simp_all add: selectionSize_def)

theorem selectionSize_bounds_witness:
  "int (length (trackedIds (ALL_EXCEPT [11]))) \<le> 5
   \<and> 0 \<le> selectionSize (ALL_EXCEPT [11]) (Loaded 5)
   \<and> selectionSize (ALL_EXCEPT [11]) (Loaded 5) \<le> 5"
proof -
  have small: "int (length (trackedIds (ALL_EXCEPT [11]))) \<le> 5"
    by simp
  from selectionSize_bounds [OF small] small show ?thesis
    by blast
qed

text \<open>An inclusion of three ids against a total of two reports three; an exclusion of two
  ids against a total of one reports a negative size.\<close>

theorem selectionSize_bounds_counterexample:
  "\<not> selectionSize (ONLY_IN [1, 2, 3]) (Loaded 2) \<le> 2
   \<and> \<not> 0 \<le> selectionSize (ALL_EXCEPT [1, 2]) (Loaded 1)"
  by (simp add: selectionSize_def)

text \<open>
  C9. While the total is not loaded, the size of an exclusion of \<open>k\<close> ids is \<open>0 - k\<close>, which is
  negative as soon as one id is excluded.
\<close>

theorem selectionSize_total_pending:
  "selectionSize (ALL_EXCEPT excs) NotLoaded = 0 - int (length excs)
   \<and> (0 < length excs \<longrightarrow> selectionSize (ALL_EXCEPT excs) NotLoaded < 0)"
  by (simp add: selectionSize_def)

theorem selectionSize_total_pending_witness:
  "0 < length [11, 12 :: int]
   \<and> selectionSize (ALL_EXCEPT [11, 12]) NotLoaded = - 2
   \<and> selectionSize (ALL_EXCEPT [11, 12]) NotLoaded < 0"
  using selectionSize_total_pending [of "[11, 12]"] by simp

subsection \<open>Scenario B of the spec\<close>

text \<open>
  C6. In the window of five loaded records with ids 10 to 14 and total 5, add-all gives the
  exclusion of nothing, of size 5; removing the range \<open>[1, 2)\<close> then gives the exclusion of
  id 11, of size 4, in which the range \<open>[0, 1)\<close> is selected and the range \<open>[1, 2)\<close> is not.
\<close>

theorem scenario_B:
  "applyGesture scenarioWindow DEFAULT_SELECTION AddAll None = ALL_EXCEPT []
   \<and> selectionSize (ALL_EXCEPT []) (Loaded 5) = 5
   \<and> applyGesture scenarioWindow (ALL_EXCEPT []) Remove (Some (1, 2)) = ALL_EXCEPT [11]
   \<and> selectionSize (ALL_EXCEPT [11]) (Loaded 5) = 4
   \<and> isRangeSelected scenarioWindow (ALL_EXCEPT [11]) (0, 1)
   \<and> \<not> isRangeSelected scenarioWindow (ALL_EXCEPT [11]) (1, 2)"
  by (simp add: applyGesture_def selectionAfter_def handleSelectionChange_def
      DEFAULT_SELECTION_def selectionSize_def isRangeSelected_def rowRangeToIds_def
      Array_slice_def scenarioWindow_def new_Set_def Set_add_def Set_delete_def Set_has_def
      Array_from_def)

subsection \<open>JavaScript sets as lists without repetition\<close>

lemma set_fold_Set_add: "set (fold (\<lambda>x s. Set_add s x) xs s) = set s \<union> set xs"
  by (induction xs arbitrary: s) (auto simp: Set_add_def)

lemma distinct_fold_Set_add: "distinct s \<Longrightarrow> distinct (fold (\<lambda>x s. Set_add s x) xs s)"
  by (induction xs arbitrary: s) (auto simp: Set_add_def)

lemma fold_Set_add_absorb: "set xs \<subseteq> set s \<Longrightarrow> fold (\<lambda>x s. Set_add s x) xs s = s"
  by (induction xs arbitrary: s) (auto simp: Set_add_def)

lemma fold_Set_add_distinct: "distinct (s @ xs) \<Longrightarrow> fold (\<lambda>x s. Set_add s x) xs s = s @ xs"
  by (induction xs arbitrary: s) (auto simp: Set_add_def)

lemma fold_Set_delete: "fold (\<lambda>x s. Set_delete s x) xs s = filter (\<lambda>y. y \<notin> set xs) s"
  by (induction xs arbitrary: s)
    (auto simp: Set_delete_def removeAll_filter_not_eq intro: filter_cong)

lemma set_new_Set: "set (new_Set xs) = set xs"
  by (simp add: new_Set_def set_fold_Set_add)

lemma distinct_new_Set: "distinct (new_Set xs)"
  by (simp add: new_Set_def distinct_fold_Set_add)

lemma new_Set_distinct: "distinct xs \<Longrightarrow> new_Set xs = xs"
  using fold_Set_add_distinct [of "[]" xs] by (simp add: new_Set_def)

lemma add_twice:
  "fold (\<lambda>x s. Set_add s x) ids (new_Set (fold (\<lambda>x s. Set_add s x) ids (new_Set xs)))
     = fold (\<lambda>x s. Set_add s x) ids (new_Set xs)"
  by (simp add: new_Set_distinct distinct_fold_Set_add distinct_new_Set fold_Set_add_absorb
      set_fold_Set_add)

lemma delete_twice:
  "filter (\<lambda>y. y \<notin> set ids) (new_Set (filter (\<lambda>y. y \<notin> set ids) (new_Set xs)))
     = filter (\<lambda>y. y \<notin> set ids) (new_Set xs)"
  by (simp add: new_Set_distinct distinct_new_Set)

subsection \<open>What each gesture does to the selection\<close>

lemma applyGesture_Add:
  "applyGesture records S Add (Some r) =
     (case S of
        ONLY_IN sels \<Rightarrow>
          ONLY_IN (fold (\<lambda>x s. Set_add s x) (rowRangeToIds records r) (new_Set sels))
      | ALL_EXCEPT excs \<Rightarrow>
          ALL_EXCEPT (filter (\<lambda>y. y \<notin> set (rowRangeToIds records r)) (new_Set excs)))"
  by (simp add: applyGesture_def selectionAfter_def handleSelectionChange_def Array_from_def
      fold_Set_delete split: SelectionState.splits)

lemma applyGesture_Remove:
  "applyGesture records S Remove (Some r) =
     (case S of
        ONLY_IN sels \<Rightarrow>
          ONLY_IN (filter (\<lambda>y. y \<notin> set (rowRangeToIds records r)) (new_Set sels))
      | ALL_EXCEPT excs \<Rightarrow>
          ALL_EXCEPT (fold (\<lambda>x s. Set_add s x) (rowRangeToIds records r) (new_Set excs)))"
  by (simp add: applyGesture_def selectionAfter_def handleSelectionChange_def Array_from_def
      fold_Set_delete split: SelectionState.splits)

lemma applyGesture_no_range:
  "applyGesture records S Add None = S"
  "applyGesture records S Remove None = S"
  "applyGesture records S SetRange None = S"
  by (simp_all add: applyGesture_def selectionAfter_def handleSelectionChange_def)

lemma applyGesture_replace:
  "applyGesture records S AddAll rng = ALL_EXCEPT []"
  "applyGesture records S RemoveAll rng = ONLY_IN []"
  "applyGesture records S SetRange (Some r) = ONLY_IN (rowRangeToIds records r)"
  by (simp_all add: applyGesture_def selectionAfter_def handleSelectionChange_def
      DEFAULT_SELECTION_def)

lemma applyGesture_twice:
  "applyGesture records (applyGesture records S Add rng) Add rng = applyGesture records S Add rng"
  "applyGesture records (applyGesture records S Remove rng) Remove rng
     = applyGesture records S Remove rng"
proof -
  show "applyGesture records (applyGesture records S Add rng) Add rng
          = applyGesture records S Add rng"
  proof (cases rng)
    case None
    then show ?thesis by (simp add: applyGesture_no_range)
  next
    case (Some r)
    then show ?thesis
      by (cases S) (simp_all add: applyGesture_Add add_twice delete_twice)
  qed
  show "applyGesture records (applyGesture records S Remove rng) Remove rng
          = applyGesture records S Remove rng"
  proof (cases rng)
    case None
    then show ?thesis by (simp add: applyGesture_no_range)
  next
    case (Some r)
    then show ?thesis
      by (cases S) (simp_all add: applyGesture_Remove add_twice delete_twice)
  qed
qed

text \<open>
  C7. In a fixed window, adding a range twice gives the state that adding it once gives, and
  removing a range twice gives the state that removing it once gives; for the hook's handler
  and for the page's copy of it.
\<close>

theorem add_remove_idempotent:
  "applyGesture records (applyGesture records S Add rng) Add rng = applyGesture records S Add rng
   \<and> applyGesture records (applyGesture records S Remove rng) Remove rng
       = applyGesture records S Remove rng
   \<and> FlatRuns_applyGesture records (FlatRuns_applyGesture records S Add rng) Add rng
       = FlatRuns_applyGesture records S Add rng
   \<and> FlatRuns_applyGesture records (FlatRuns_applyGesture records S Remove rng) Remove rng
       = FlatRuns_applyGesture records S Remove rng"
  by (simp add: FlatRuns_applyGesture_eq applyGesture_twice)

lemma applyGesture_nothing_resolvable:
  assumes "rowRangeToIds records r = []"
  shows "keepsSelection S (applyGesture records S Add (Some r))"
    and "keepsSelection S (applyGesture records S Remove (Some r))"
    and "applyGesture records S SetRange (Some r) = ONLY_IN []"
  using assms
  by (cases S; simp add: keepsSelection_def applyGesture_Add applyGesture_Remove
      applyGesture_replace set_new_Set new_Set_distinct)+

text \<open>
  C2 (amended). When no id is resolvable in the range, add and remove keep the selection:
  the variant and the set of tracked ids stay, and the state is the prior state whenever its
  array held no id twice. A set gesture with such a range replaces the state by the empty
  inclusion. The same holds for the page's copy of the handler.
\<close>

theorem nothing_resolvable_in_range:
  assumes "rowRangeToIds records r = []"
  shows "keepsSelection S (applyGesture records S Add (Some r))
         \<and> keepsSelection S (applyGesture records S Remove (Some r))
         \<and> applyGesture records S SetRange (Some r) = ONLY_IN []
         \<and> keepsSelection S (FlatRuns_applyGesture records S Add (Some r))
         \<and> keepsSelection S (FlatRuns_applyGesture records S Remove (Some r))
         \<and> FlatRuns_applyGesture records S SetRange (Some r) = ONLY_IN []"
  using applyGesture_nothing_resolvable [OF assms]
  by (simp add: FlatRuns_applyGesture_eq)

theorem nothing_resolvable_in_range_witness:
  "rowRangeToIds scenarioWindow (7, 9) = []
   \<and> applyGesture scenarioWindow (ALL_EXCEPT [11]) Add (Some (7, 9)) = ALL_EXCEPT [11]
   \<and> applyGesture scenarioWindow (ALL_EXCEPT [11]) Remove (Some (7, 9)) = ALL_EXCEPT [11]
   \<and> applyGesture scenarioWindow (ALL_EXCEPT [11]) SetRange (Some (7, 9)) = ONLY_IN []"
proof -
  have empty: "rowRangeToIds scenarioWindow (7, 9) = []"
    by (simp add: rowRangeToIds_def Array_slice_def scenarioWindow_def)
  from nothing_resolvable_in_range [OF empty, of "ALL_EXCEPT [11]"] empty
  show ?thesis by (simp add: keepsSelection_def)
qed

text \<open>No record of the scenario window lies in the range \<open>[7, 9)\<close>, yet a set gesture over
  it turns the inclusion of id 10 into the empty inclusion.\<close>

theorem set_unresolvable_range_counterexample:
  "rowRangeToIds scenarioWindow (7, 9) = []
   \<and> applyGesture scenarioWindow (ONLY_IN [10]) SetRange (Some (7, 9)) = ONLY_IN []
   \<and> applyGesture scenarioWindow (ONLY_IN [10]) SetRange (Some (7, 9)) \<noteq> ONLY_IN [10]"
  by (simp add: applyGesture_replace rowRangeToIds_def Array_slice_def scenarioWindow_def)

subsection \<open>The loaded records of the selection\<close>

lemma filterNotLoaded_cond:
  "filterNotLoaded xs (Some c) = filter c (filterNotLoaded xs None)"
  by (induction xs "Some c" rule: filterNotLoaded.induct) auto

lemma set_filterNotLoaded: "set (filterNotLoaded xs None) = {d. Loaded d \<in> set xs}"
  by (induction xs "None :: ('a \<Rightarrow> bool) option" rule: filterNotLoaded.induct) auto

text \<open>
  C8. \<^verbatim>\<open>loadedSelectedRecords\<close> is the list of the loaded records, in window order, reduced
  to those whose id is a member of the effective selection.
\<close>

theorem loadedSelectedRecords_effective:
  "loadedSelectedRecords records S =
     filter (\<lambda>rc. effectiveMember S (record_id rc)) (filterNotLoaded records None)"
proof (cases S)
  case (ONLY_IN sels)
  then show ?thesis
    by (simp add: loadedSelectedRecords_def selectedRecordIdSet_def Set_has_def set_new_Set
        filterNotLoaded_cond)
next
  case (ALL_EXCEPT excs)
  have "filter (\<lambda>rc. record_id rc \<in> record_id ` {r \<in> set L. record_id r \<notin> set excs}) L
        = filter (\<lambda>rc. record_id rc \<notin> set excs) L" for L :: "'a HasId_scheme list"
    by (rule filter_cong) auto
  with ALL_EXCEPT show ?thesis
    by (simp add: loadedSelectedRecords_def selectedRecordIdSet_def Set_has_def set_new_Set
        filterNotLoaded_cond)
qed

subsection \<open>The handler's one call of the settings collaborator\<close>

lemma handleSelectionChange_call:
  "handleSelectionChange records S ty rng = None
   \<or> (\<exists>s'. handleSelectionChange records S ty rng = Some [''selection'' \<mapsto> SelectionValue s'])"
  by (cases ty; cases rng; cases S) (auto simp: handleSelectionChange_def)

lemma handleSelectionChange_frame:
  fixes updateSettings :: "(string \<rightharpoonup> 'v) \<Rightarrow> 'u PartialSettings \<Rightarrow> (string \<rightharpoonup> 'v)"
  assumes "\<forall>st p k. k \<notin> dom p \<longrightarrow> updateSettings st p k = st k"
  shows "(\<forall>p :: 'u PartialSettings.
            handleSelectionChange records S ty rng = Some p \<longrightarrow> dom p = {''selection''})
    \<and> (\<forall>k. k \<noteq> ''selection'' \<longrightarrow>
          settingsAfter updateSettings st (handleSelectionChange records S ty rng) k = st k)"
proof -
  let ?call = "handleSelectionChange records S ty rng :: 'u PartialSettings option"
  have "?call = None \<or> (\<exists>s'. ?call = Some [''selection'' \<mapsto> SelectionValue s'])"
    by (rule handleSelectionChange_call)
  then show ?thesis
  proof
    assume "?call = None"
    then show ?thesis by (simp add: settingsAfter_def)
  next
    assume "\<exists>s'. ?call = Some [''selection'' \<mapsto> SelectionValue s']"
    then obtain s' where "?call = Some [''selection'' \<mapsto> SelectionValue s']" ..
    with assms show ?thesis by (simp add: settingsAfter_def)
  qed
qed

text \<open>
  C10. Whatever the gesture, the object the handler passes to the settings collaborator has
  the one key \<^verbatim>\<open>selection\<close>; so with a collaborator that writes only the keys of the object
  it is given, every other settings field is after the gesture what it was before. The same
  holds for the page's copy of the handler.
\<close>

theorem selection_is_the_only_key_written:
  fixes updateSettings :: "(string \<rightharpoonup> 'v) \<Rightarrow> 'u PartialSettings \<Rightarrow> (string \<rightharpoonup> 'v)"
  assumes "\<forall>st p k. k \<notin> dom p \<longrightarrow> updateSettings st p k = st k"
  shows "(\<forall>p :: 'u PartialSettings.
            handleSelectionChange records S ty rng = Some p \<longrightarrow> dom p = {''selection''})
    \<and> (\<forall>k. k \<noteq> ''selection'' \<longrightarrow>
          settingsAfter updateSettings st (handleSelectionChange records S ty rng) k = st k)
    \<and> (\<forall>p :: 'u PartialSettings.
            FlatRuns_handleSelectionChange records S ty rng = Some p \<longrightarrow> dom p = {''selection''})
    \<and> (\<forall>k. k \<noteq> ''selection'' \<longrightarrow>
          settingsAfter updateSettings st (FlatRuns_handleSelectionChange records S ty rng) k
            = st k)"
  using handleSelectionChange_frame [OF assms, of records S ty rng st]
  by (simp add: FlatRuns_handleSelectionChange_eq)

theorem selection_is_the_only_key_written_witness:
  "dom (the (handleSelectionChange scenarioWindow DEFAULT_SELECTION AddAll None
               :: unit PartialSettings option)) = {''selection''}
   \<and> settingsAfter (\<lambda>st p. st ++ p) [''pageLimit'' \<mapsto> OtherValue ()]
        (handleSelectionChange scenarioWindow DEFAULT_SELECTION AddAll None) ''pageLimit''
      = Some (OtherValue ())"
proof -
  have frame: "\<forall>st (p :: unit PartialSettings) k. k \<notin> dom p \<longrightarrow> (st ++ p) k = st k"
    by (simp add: map_add_dom_app_simps)
  have call: "handleSelectionChange scenarioWindow DEFAULT_SELECTION AddAll None
      = Some ([''selection'' \<mapsto> SelectionValue (ALL_EXCEPT [])] :: unit PartialSettings)"
    by (simp add: handleSelectionChange_def)
  have neq: "''pageLimit'' \<noteq> ''selection''"
    by simp
  from selection_is_the_only_key_written [OF frame, of scenarioWindow DEFAULT_SELECTION AddAll
      None "[''pageLimit'' \<mapsto> OtherValue ()]"] call neq
  show ?thesis by simp
qed

subsection \<open>Positions of a compact selection\<close>

lemma hasIndex_empty: "\<not> hasIndex CompactSelection_empty p"
  by (simp add: hasIndex_def CompactSelection_empty_def)

lemma hasIndex_add:
  "hasIndex (CompactSelection_add cs sel) p
     = (hasIndex cs p \<or> (fst (toSlice sel) \<le> p \<and> p < snd (toSlice sel)))"
  by (auto simp: hasIndex_def CompactSelection_add_def list_ex_iff)

lemma removeFromSlice_Number:
  "list_ex (\<lambda>(a, b). a \<le> p \<and> p < b) (removeFromSlice (n, n + 1) (start, fin))
     = (start \<le> p \<and> p < fin \<and> p \<noteq> n)"
proof (cases "p < n")
  case True
  then show ?thesis by auto
next
  case False
  then show ?thesis by auto
qed

lemma list_ex_remove_Number:
  "list_ex (\<lambda>(a, b). a \<le> p \<and> p < b) (concat (map (removeFromSlice (n, n + 1)) sls))
     = (list_ex (\<lambda>(a, b). a \<le> p \<and> p < b) sls \<and> p \<noteq> n)"
proof (induction sls)
  case Nil
  then show ?case by simp
next
  case (Cons sl sls)
  obtain start fin where sl: "sl = (start, fin)" by (cases sl)
  show ?case
    using Cons.IH removeFromSlice_Number [of p n start fin]
    by (auto simp: sl simp del: removeFromSlice.simps)
qed

lemma hasIndex_remove_Number:
  "hasIndex (CompactSelection_remove cs (Number n)) p = (hasIndex cs p \<and> p \<noteq> n)"
  by (simp add: hasIndex_def CompactSelection_remove_def list_ex_remove_Number)

lemma hasIndex_fold_add:
  "hasIndex (fold (\<lambda>ident rows. case m ident of
                      Some e \<Rightarrow> CompactSelection_add rows (Number (int (index e)))
                    | None \<Rightarrow> rows) sels cs) p
   = (hasIndex cs p \<or> (\<exists>ident \<in> set sels. \<exists>e. m ident = Some e \<and> int (index e) = p))"
  by (induction sels arbitrary: cs) (auto simp: hasIndex_add split: option.splits)

lemma hasIndex_fold_remove:
  "hasIndex (fold (\<lambda>exc rows. case m exc of
                      Some e \<Rightarrow> CompactSelection_remove rows (Number (int (index e)))
                    | None \<Rightarrow> rows) excs cs) p
   = (hasIndex cs p \<and> \<not> (\<exists>ident \<in> set excs. \<exists>e. m ident = Some e \<and> int (index e) = p))"
  by (induction excs arbitrary: cs) (auto simp: hasIndex_remove_Number split: option.splits)

lemma rows_ONLY_IN:
  "hasIndex (rows (dataGridSelection records (ONLY_IN sels) totl)) p
   = (\<exists>ident \<in> set sels. \<exists>e. loadedRecordIdMap records ident = Some e \<and> int (index e) = p)"
  by (simp add: dataGridSelection_def hasIndex_fold_add hasIndex_empty)

lemma rows_ALL_EXCEPT:
  "hasIndex (rows (dataGridSelection records (ALL_EXCEPT excs) totl)) p
   = (0 \<le> p \<and> p < getOrElse totl 1 - 1
      \<and> \<not> (\<exists>ident \<in> set excs. \<exists>e. loadedRecordIdMap records ident = Some e \<and> int (index e) = p))"
  by (simp add: dataGridSelection_def hasIndex_fold_remove hasIndex_add hasIndex_empty)

text \<open>The position \<open>N - 1\<close> is in no projection of an exclusion with known total \<open>N\<close>.\<close>

lemma last_position_never_projected:
  "\<not> hasIndex (rows (dataGridSelection records (ALL_EXCEPT excs) (Loaded N))) (N - 1)"
  by (simp add: rows_ALL_EXCEPT)

text \<open>
  C1. With all five records of the scenario window loaded, a total of 5 and the exclusion of
  nothing, the projection does not contain position 4, the last position, although the range
  \<open>[4, 5)\<close> is reported as selected and the selection size is 5.
\<close>

theorem projection_omits_last_position:
  "\<not> hasIndex (rows (dataGridSelection scenarioWindow (ALL_EXCEPT []) (Loaded 5))) 4
   \<and> items (rows (dataGridSelection scenarioWindow (ALL_EXCEPT []) (Loaded 5))) = [(0, 4)]
   \<and> isRangeSelected scenarioWindow (ALL_EXCEPT []) (4, 5)
   \<and> selectionSize (ALL_EXCEPT []) (Loaded 5) = 5"
  by (simp add: dataGridSelection_def hasIndex_def CompactSelection_add_def
      CompactSelection_empty_def isRangeSelected_def selectionSize_def rowRangeToIds_def
      Array_slice_def scenarioWindow_def new_Set_def Set_has_def)

subsection \<open>The map from ids to positions\<close>

lemma recordMap_forEach_absent:
  "ident \<notin> record_id ` set (filterNotLoaded rs None) \<Longrightarrow> recordMap_forEach rs i m ident = m ident"
  by (induction rs arbitrary: i m) (auto split: Loadable.splits)

lemma recordMap_forEach_sound:
  "recordMap_forEach rs i m ident = Some e \<Longrightarrow>
     m ident = Some e
     \<or> (\<exists>j < length rs. rs ! j = Loaded (entry_record e) \<and> index e = i + j
          \<and> record_id (entry_record e) = ident)"
proof (induction rs arbitrary: i m)
  case Nil
  then show ?case by simp
next
  case (Cons r rs)
  let ?m' = "case r of Loaded rc \<Rightarrow> m(record_id rc \<mapsto> \<lparr>entry_record = rc, index = i\<rparr>)
             | NotLoaded \<Rightarrow> m"
  from Cons.prems have "recordMap_forEach rs (Suc i) ?m' ident = Some e" by simp
  from Cons.IH [OF this] show ?case
  proof
    assume "?m' ident = Some e"
    then show ?thesis by (cases r) (auto split: if_splits)
  next
    assume "\<exists>j < length rs. rs ! j = Loaded (entry_record e) \<and> index e = Suc i + j
          \<and> record_id (entry_record e) = ident"
    then obtain j where "j < length rs" "rs ! j = Loaded (entry_record e)" "index e = Suc i + j"
      "record_id (entry_record e) = ident" by blast
    then have "Suc j < length (r # rs) \<and> (r # rs) ! Suc j = Loaded (entry_record e)
       \<and> index e = i + Suc j \<and> record_id (entry_record e) = ident" by simp
    then show ?thesis by blast
  qed
qed

lemma recordMap_forEach_complete:
  "j < length rs \<Longrightarrow> rs ! j = Loaded rc \<Longrightarrow> distinct (map record_id (filterNotLoaded rs None))
     \<Longrightarrow> recordMap_forEach rs i m (record_id rc) = Some \<lparr>entry_record = rc, index = i + j\<rparr>"
proof (induction rs arbitrary: i m j)
  case Nil
  then show ?case by simp
next
  case (Cons r rs)
  show ?case
  proof (cases j)
    case 0
    with Cons.prems have r: "r = Loaded rc" by simp
    with Cons.prems have "record_id rc \<notin> record_id ` set (filterNotLoaded rs None)" by simp
    from recordMap_forEach_absent [OF this] r 0 show ?thesis by simp
  next
    case (Suc j')
    with Cons.prems have "j' < length rs" "rs ! j' = Loaded rc" by simp_all
    moreover from Cons.prems have "distinct (map record_id (filterNotLoaded rs None))"
      by (cases r) simp_all
    ultimately show ?thesis using Cons.IH [of j' "Suc i"] Suc by simp
  qed
qed

subsection \<open>Ranges of the loaded window\<close>

lemma Array_slice_within:
  "0 \<le> lo \<Longrightarrow> lo \<le> hi \<Longrightarrow> hi \<le> int (length xs) \<Longrightarrow>
     Array_slice xs lo hi = take (nat (hi - lo)) (drop (nat lo) xs)"
  by (simp add: Array_slice_def Let_def min_def)

lemma set_take_drop:
  assumes "k + n \<le> length xs"
  shows "set (take n (drop k xs)) = {xs ! (k + i) | i. i < n}"
proof (intro equalityI subsetI)
  fix x assume "x \<in> set (take n (drop k xs))"
  then obtain i where "i < length (take n (drop k xs))" "x = take n (drop k xs) ! i"
    by (auto simp: in_set_conv_nth)
  with assms have "i < n \<and> x = xs ! (k + i)" by simp
  then show "x \<in> {xs ! (k + i) | i. i < n}" by blast
next
  fix x assume "x \<in> {xs ! (k + i) | i. i < n}"
  then obtain i where i: "i < n" "x = xs ! (k + i)" by blast
  with assms have "i < length (take n (drop k xs)) \<and> take n (drop k xs) ! i = x" by simp
  then show "x \<in> set (take n (drop k xs))" by (auto simp: in_set_conv_nth)
qed

lemma rangeLoaded_bounds:
  "rangeLoaded records (lo, hi) \<Longrightarrow> lo \<le> p \<Longrightarrow> p < hi \<Longrightarrow>
     0 \<le> p \<and> nat p < length records \<and> int (nat p) = p"
  unfolding rangeLoaded_def by (simp only: fst_conv snd_conv) linarith

lemma set_Array_slice_within:
  assumes "0 \<le> lo" "lo \<le> hi" "hi \<le> int (length xs)"
  shows "set (Array_slice xs lo hi) = {xs ! nat p | p. lo \<le> p \<and> p < hi}"
proof -
  have "set (take (nat (hi - lo)) (drop (nat lo) xs))
        = {xs ! (nat lo + i) | i. i < nat (hi - lo)}"
    using assms by (intro set_take_drop) linarith
  also have "\<dots> = {xs ! nat p | p. lo \<le> p \<and> p < hi}"
  proof (intro equalityI subsetI)
    fix x assume "x \<in> {xs ! (nat lo + i) | i. i < nat (hi - lo)}"
    then obtain i where i: "x = xs ! (nat lo + i)" "i < nat (hi - lo)" by blast
    with assms have "x = xs ! nat (lo + int i) \<and> lo \<le> lo + int i \<and> lo + int i < hi"
      by (simp add: nat_add_distrib)
    then show "x \<in> {xs ! nat p | p. lo \<le> p \<and> p < hi}" by blast
  next
    fix x assume "x \<in> {xs ! nat p | p. lo \<le> p \<and> p < hi}"
    then obtain p where p: "x = xs ! nat p" "lo \<le> p" "p < hi" by blast
    with assms have "x = xs ! (nat lo + nat (p - lo)) \<and> nat (p - lo) < nat (hi - lo)"
      by (simp add: nat_add_distrib [symmetric])
    then show "x \<in> {xs ! (nat lo + i) | i. i < nat (hi - lo)}" by blast
  qed
  finally show ?thesis using assms by (simp add: Array_slice_within)
qed

lemma rangeLoaded_slot:
  assumes "rangeLoaded records (lo, hi)" "lo \<le> p" "p < hi"
  shows "\<exists>rc. records ! nat p = Loaded rc \<and> nat p < length records
           \<and> record_id rc \<in> set (rowRangeToIds records (lo, hi))"
proof -
  from assms(1) have b: "0 \<le> lo" "lo \<le> hi" "hi \<le> int (length records)"
    and l: "\<forall>slot \<in> set (Array_slice records lo hi). slot \<noteq> NotLoaded"
    by (simp_all add: rangeLoaded_def list_all_iff)
  from assms(2,3) have mem: "records ! nat p \<in> set (Array_slice records lo hi)"
    unfolding set_Array_slice_within [OF b] by blast
  with l obtain rc where rc: "records ! nat p = Loaded rc"
    by (cases "records ! nat p") auto
  with mem have "record_id rc \<in> set (rowRangeToIds records (lo, hi))"
    by (simp add: rowRangeToIds_def set_filterNotLoaded)
  moreover from rangeLoaded_bounds [OF assms] have "nat p < length records" by simp
  ultimately show ?thesis using rc by blast
qed

lemma rowRangeToIds_slot:
  assumes "rangeLoaded records (lo, hi)" "ident \<in> set (rowRangeToIds records (lo, hi))"
  shows "\<exists>p rc. lo \<le> p \<and> p < hi \<and> records ! nat p = Loaded rc \<and> record_id rc = ident"
proof -
  from assms(1) have b: "0 \<le> lo" "lo \<le> hi" "hi \<le> int (length records)"
    by (simp_all add: rangeLoaded_def)
  from assms(2) obtain rc where "Loaded rc \<in> set (Array_slice records lo hi)" "record_id rc = ident"
    by (auto simp: rowRangeToIds_def set_filterNotLoaded)
  then show ?thesis unfolding set_Array_slice_within [OF b] by force
qed

lemma loadedRecordIdMap_sound:
  assumes "loadedRecordIdMap records ident = Some e"
  shows "index e < length records \<and> records ! index e = Loaded (entry_record e)
         \<and> record_id (entry_record e) = ident"
  using recordMap_forEach_sound [of records 0 Map.empty ident e] assms
  by (auto simp: loadedRecordIdMap_def)

lemma loadedRecordIdMap_complete:
  assumes "uniqueIds records" "j < length records" "records ! j = Loaded rc"
  shows "loadedRecordIdMap records (record_id rc) = Some \<lparr>entry_record = rc, index = j\<rparr>"
  using recordMap_forEach_complete [of j records rc 0 Map.empty] assms
  by (simp add: loadedRecordIdMap_def uniqueIds_def)

lemma hasAll_iff: "hasAll cs (lo, hi) = (\<forall>p. lo \<le> p \<and> p < hi \<longrightarrow> hasIndex cs p)"
  by (auto simp: hasAll_def list_all_iff)

lemma isRangeSelected_iff:
  "isRangeSelected records S r =
     (\<forall>ident \<in> set (rowRangeToIds records r). effectiveMember S ident)"
  by (cases S) (simp_all add: isRangeSelected_def list_all_iff Set_has_def set_new_Set)

lemma projection_ONLY_IN:
  assumes u: "uniqueIds records" and l: "rangeLoaded records (lo, hi)"
  shows "hasAll (rows (dataGridSelection records (ONLY_IN sels) totl)) (lo, hi)
         = isRangeSelected records (ONLY_IN sels) (lo, hi)"
proof
  assume all: "hasAll (rows (dataGridSelection records (ONLY_IN sels) totl)) (lo, hi)"
  show "isRangeSelected records (ONLY_IN sels) (lo, hi)"
    unfolding isRangeSelected_iff
  proof
    fix ident assume "ident \<in> set (rowRangeToIds records (lo, hi))"
    from rowRangeToIds_slot [OF l this] obtain p rc where
      p: "lo \<le> p" "p < hi" "records ! nat p = Loaded rc" "record_id rc = ident" by blast
    with all have "hasIndex (rows (dataGridSelection records (ONLY_IN sels) totl)) p"
      by (simp add: hasAll_iff)
    then obtain i e where e: "i \<in> set sels" "loadedRecordIdMap records i = Some e" "int (index e) = p"
      unfolding rows_ONLY_IN by blast
    from loadedRecordIdMap_sound [OF e(2)] e(3) p(3) have "record_id rc = i" by auto
    with e(1) p(4) show "effectiveMember (ONLY_IN sels) ident" by simp
  qed
next
  assume sel: "isRangeSelected records (ONLY_IN sels) (lo, hi)"
  show "hasAll (rows (dataGridSelection records (ONLY_IN sels) totl)) (lo, hi)"
    unfolding hasAll_iff
  proof (intro allI impI)
    fix p assume p: "lo \<le> p \<and> p < hi"
    with rangeLoaded_slot [OF l, of p] obtain rc where
      rc: "records ! nat p = Loaded rc" "nat p < length records"
          "record_id rc \<in> set (rowRangeToIds records (lo, hi))" by blast
    with sel have "record_id rc \<in> set sels" by (simp add: isRangeSelected_iff)
    moreover from rangeLoaded_bounds [OF l] p have "int (nat p) = p" by simp
    ultimately show "hasIndex (rows (dataGridSelection records (ONLY_IN sels) totl)) p"
      unfolding rows_ONLY_IN using loadedRecordIdMap_complete [OF u rc(2) rc(1)]
      by (intro bexI [of _ "record_id rc"]) auto
  qed
qed

lemma projection_ALL_EXCEPT:
  assumes u: "uniqueIds records" and l: "rangeLoaded records (lo, hi)"
    and n: "hi \<le> N - 1"
  shows "hasAll (rows (dataGridSelection records (ALL_EXCEPT excs) (Loaded N))) (lo, hi)
         = isRangeSelected records (ALL_EXCEPT excs) (lo, hi)"
proof
  assume all: "hasAll (rows (dataGridSelection records (ALL_EXCEPT excs) (Loaded N))) (lo, hi)"
  show "isRangeSelected records (ALL_EXCEPT excs) (lo, hi)"
    unfolding isRangeSelected_iff
  proof
    fix ident assume "ident \<in> set (rowRangeToIds records (lo, hi))"
    from rowRangeToIds_slot [OF l this] obtain p rc where
      p: "lo \<le> p" "p < hi" "records ! nat p = Loaded rc" "record_id rc = ident" by blast
    from rangeLoaded_bounds [OF l p(1,2)] have np: "nat p < length records" "int (nat p) = p"
      by simp_all
    from all p have "hasIndex (rows (dataGridSelection records (ALL_EXCEPT excs) (Loaded N))) p"
      by (simp add: hasAll_iff)
    then have "\<not> (\<exists>i \<in> set excs. \<exists>e. loadedRecordIdMap records i = Some e \<and> int (index e) = p)"
      unfolding rows_ALL_EXCEPT by blast
    with loadedRecordIdMap_complete [OF u np(1) p(3)] np(2) p(4)
    have "ident \<notin> set excs" by auto
    then show "effectiveMember (ALL_EXCEPT excs) ident" by simp
  qed
next
  assume sel: "isRangeSelected records (ALL_EXCEPT excs) (lo, hi)"
  show "hasAll (rows (dataGridSelection records (ALL_EXCEPT excs) (Loaded N))) (lo, hi)"
    unfolding hasAll_iff
  proof (intro allI impI)
    fix p assume p: "lo \<le> p \<and> p < hi"
    with rangeLoaded_slot [OF l, of p] obtain rc where
      rc: "records ! nat p = Loaded rc" "nat p < length records"
          "record_id rc \<in> set (rowRangeToIds records (lo, hi))" by blast
    with sel have notin: "record_id rc \<notin> set excs" by (simp add: isRangeSelected_iff)
    from rangeLoaded_bounds [OF l] p have ip: "int (nat p) = p" "0 \<le> p" by simp_all
    have "\<not> (\<exists>i \<in> set excs. \<exists>e. loadedRecordIdMap records i = Some e \<and> int (index e) = p)"
    proof
      assume "\<exists>i \<in> set excs. \<exists>e. loadedRecordIdMap records i = Some e \<and> int (index e) = p"
      then obtain i e where e: "i \<in> set excs" "loadedRecordIdMap records i = Some e"
        "int (index e) = p" by blast
      from loadedRecordIdMap_sound [OF e(2)] e(3) rc(1) have "record_id rc = i" by auto
      with e(1) notin show False by simp
    qed
    with p n ip show "hasIndex (rows (dataGridSelection records (ALL_EXCEPT excs) (Loaded N))) p"
      unfolding rows_ALL_EXCEPT by simp
  qed
qed

text \<open>
  C4 (amended). In a window whose loaded records have distinct ids, for a range in the loaded
  portion of the window: under an inclusion, and under an exclusion with known total \<open>N\<close>
  when the range ends at or before position \<open>N - 1\<close>, every position of the range is in the
  projection exactly when \<^verbatim>\<open>isRangeSelected\<close> holds of the range.
\<close>

theorem projection_agrees_with_isRangeSelected:
  assumes "uniqueIds records" and "rangeLoaded records r" and "coveredByTotal S totl r"
  shows "hasAll (rows (dataGridSelection records S totl)) r = isRangeSelected records S r"
proof -
  obtain lo hi where r: "r = (lo, hi)" by (cases r)
  show ?thesis
  proof (cases S)
    case (ONLY_IN sels)
    with assms r show ?thesis by (simp add: projection_ONLY_IN)
  next
    case (ALL_EXCEPT excs)
    with assms(3) obtain N where "totl = Loaded N" "hi \<le> N - 1"
      by (cases totl) (simp_all add: r)
    with assms(1,2) ALL_EXCEPT r show ?thesis by (simp add: projection_ALL_EXCEPT)
  qed
qed

theorem projection_agrees_with_isRangeSelected_witness:
  "uniqueIds scenarioWindow \<and> rangeLoaded scenarioWindow (2, 4)
   \<and> coveredByTotal (ALL_EXCEPT [11]) (Loaded 5) (2, 4)
   \<and> isRangeSelected scenarioWindow (ALL_EXCEPT [11]) (2, 4)
   \<and> hasAll (rows (dataGridSelection scenarioWindow (ALL_EXCEPT [11]) (Loaded 5))) (2, 4)"
proof -
  have u: "uniqueIds scenarioWindow"
    by (simp add: uniqueIds_def scenarioWindow_def)
  have l: "rangeLoaded scenarioWindow (2, 4)"
    by (simp add: rangeLoaded_def Array_slice_def scenarioWindow_def)
  have c: "coveredByTotal (ALL_EXCEPT [11]) (Loaded 5) (2, 4)"
    by simp
  have s: "isRangeSelected scenarioWindow (ALL_EXCEPT [11]) (2, 4)"
    by (simp add: isRangeSelected_def rowRangeToIds_def Array_slice_def scenarioWindow_def
        new_Set_def Set_add_def Set_has_def)
  from projection_agrees_with_isRangeSelected [OF u l c] s u l c show ?thesis
    by blast
qed

text \<open>While the total is pending, the projection of the exclusion of nothing is empty: the
  loaded range \<open>[1, 2)\<close> of the scenario window is reported as selected and is not in it.\<close>

theorem projection_total_pending_counterexample:
  "uniqueIds scenarioWindow \<and> rangeLoaded scenarioWindow (1, 2)
   \<and> isRangeSelected scenarioWindow (ALL_EXCEPT []) (1, 2)
   \<and> \<not> hasAll (rows (dataGridSelection scenarioWindow (ALL_EXCEPT []) NotLoaded)) (1, 2)"
  by (simp add: uniqueIds_def rangeLoaded_def isRangeSelected_def rowRangeToIds_def
      Array_slice_def scenarioWindow_def new_Set_def Set_has_def hasAll_def hasIndex_def
      dataGridSelection_def CompactSelection_add_def CompactSelection_empty_def)

end
